theory Spec2Isabelle
  imports Complex_Main "HOL-Library.Word"
begin

unbundle bit_operations_syntax

section \<open>Data model of cube_detection.py\<close>

text \<open>
  Python exceptions the module can raise: an out-of-range list index, a missing dict
  key, a shape mismatch in a numpy operation, a float division by zero, and an
  assertion failure inside an OpenCV routine.
\<close>

datatype py_error = IndexError | KeyError | ValueError | ZeroDivisionError | CvError

text \<open>
  A two-dimensional numpy array: \<open>shape0\<close> rows and \<open>shape1\<close> columns (numpy's
  \<open>shape[0]\<close> and \<open>shape[1]\<close>), and the element at row \<open>r\<close>, column \<open>c\<close>. Only
  positions inside the shape are meaningful. A colour image has a triple of 8-bit
  channels per element (hue, saturation, value), a mask a single 8-bit channel.
\<close>

record 'a ndarray =
  shape0 :: nat
  shape1 :: nat
  pix :: "nat \<Rightarrow> nat \<Rightarrow> 'a"

type_synonym pixel = "8 word \<times> 8 word \<times> 8 word"
type_synonym bound = "int \<times> int \<times> int"

text \<open>\<open>xs[k]\<close> for a non-negative index: IndexError beyond the end of the list.\<close>

definition py_get :: "'a list \<Rightarrow> nat \<Rightarrow> py_error + 'a" where
  "py_get xs k = (if k < length xs then Inr (xs ! k) else Inl IndexError)"

text \<open>The height of the cut picture (module constant \<open>image_height\<close>).\<close>

definition image_height :: nat where
  "image_height = 300"

text \<open>The filter map for each colour, in the insertion order of the dict literal.\<close>

definition color_dict :: "(string \<times> bound \<times> bound) list" where
  "color_dict =
    [(''white'', (0, 0, 50), (255, 255, 255)),
     (''yellow'', (15, 0, 0), (30, 255, 255)),
     (''green'', (60, 0, 0), (75, 255, 255)),
     (''blue'', (105, 0, 0), (120, 255, 255)),
     (''purple'', (145, 0, 0), (160, 255, 255)),
     (''orange'', (5, 0, 0), (15, 255, 255)),
     (''red'', (175, 0, 0), (190, 255, 255)),
     (''pink'', (160, 0, 0), (175, 255, 255)),
     (''light_blue'', (90, 0, 0), (105, 255, 255))]"

section \<open>Colour filtering\<close>

text \<open>
  \<open>cv2.inRange(src, lowerb, upperb)\<close> is a library routine. Its documented rule is used:
  the output has the shape of \<open>src\<close>, and an element is 255 when every channel lies
  between the bounds, both inclusive, and 0 otherwise.
\<close>

definition in_bounds :: "pixel \<Rightarrow> bound \<Rightarrow> bound \<Rightarrow> bool" where
  "in_bounds p lowerb upperb =
    (case p of (h, s, v) \<Rightarrow> case lowerb of (l0, l1, l2) \<Rightarrow> case upperb of (u0, u1, u2) \<Rightarrow>
      l0 \<le> uint h \<and> uint h \<le> u0 \<and> l1 \<le> uint s \<and> uint s \<le> u1 \<and> l2 \<le> uint v \<and> uint v \<le> u2)"

definition inRange :: "pixel ndarray \<Rightarrow> bound \<Rightarrow> bound \<Rightarrow> 8 word ndarray" where
  "inRange src lowerb upperb =
    \<lparr>shape0 = shape0 src, shape1 = shape1 src,
     pix = (\<lambda>r c. if in_bounds (pix src r c) lowerb upperb then 255 else 0)\<rparr>"

text \<open>
  \<open>_filter_color\<close>: the loop \<open>for k in range(5)\<close> appends \<open>inRange(imgs[k], lower, upper)\<close>
  to the list \<open>mask\<close> (here \<open>masks\<close>). The loop runs over the values of \<open>k\<close> still to come.
\<close>

fun filter_color_loop ::
  "bound \<Rightarrow> bound \<Rightarrow> pixel ndarray list \<Rightarrow> nat list \<Rightarrow> 8 word ndarray list
    \<Rightarrow> py_error + 8 word ndarray list" where
  "filter_color_loop lower upper imgs [] masks = Inr masks"
| "filter_color_loop lower upper imgs (k # ks) masks =
    (case py_get imgs k of
       Inl e \<Rightarrow> Inl e
     | Inr im \<Rightarrow> filter_color_loop lower upper imgs ks (masks @ [inRange im lower upper]))"

definition filter_color ::
  "bound \<Rightarrow> bound \<Rightarrow> pixel ndarray list \<Rightarrow> py_error + 8 word ndarray list" where
  "filter_color lower upper imgs = filter_color_loop lower upper imgs [0, 1, 2, 3, 4] []"


section \<open>Cropping\<close>

text \<open>\<open>color_dict[name]\<close>: the pair of bounds of a colour, KeyError for an unknown name.\<close>

definition color_bounds :: "string \<Rightarrow> py_error + (bound \<times> bound)" where
  "color_bounds name =
    (case map_of color_dict name of None \<Rightarrow> Inl KeyError | Some b \<Rightarrow> Inr b)"

text \<open>
  \<open>cv2.bitwise_and(src1, src2, mask=m)\<close>, a library routine: the three arrays must have
  the same shape; the fresh output holds the channel-wise conjunction where the mask is
  non-zero and zero elsewhere.
\<close>

definition bitwise_and ::
  "pixel ndarray \<Rightarrow> pixel ndarray \<Rightarrow> 8 word ndarray \<Rightarrow> py_error + pixel ndarray" where
  "bitwise_and src1 src2 m =
    (if shape0 src1 = shape0 src2 \<and> shape1 src1 = shape1 src2
        \<and> shape0 m = shape0 src1 \<and> shape1 m = shape1 src1
     then Inr \<lparr>shape0 = shape0 src1, shape1 = shape1 src1,
               pix = (\<lambda>r c. if pix m r c \<noteq> 0
                            then (case pix src1 r c of (h1, s1, v1) \<Rightarrow>
                                  case pix src2 r c of (h2, s2, v2) \<Rightarrow>
                                    (h1 AND h2, s1 AND s2, v1 AND v2))
                            else (0, 0, 0))\<rparr>
     else Inl CvError)"

text \<open>
  \<open>_cut_imgs\<close>: for \<open>i\<close> in \<open>range(5)\<close>, the arguments \<open>imgs[i]\<close> are evaluated first, then
  the white masks of all images are computed and the \<open>i\<close>-th one is taken.
\<close>

fun cut_imgs_loop ::
  "pixel ndarray list \<Rightarrow> nat list \<Rightarrow> pixel ndarray list \<Rightarrow> py_error + pixel ndarray list" where
  "cut_imgs_loop imgs [] img_white = Inr img_white"
| "cut_imgs_loop imgs (i # is) img_white =
    (case py_get imgs i of Inl e \<Rightarrow> Inl e | Inr a \<Rightarrow>
     case color_bounds ''white'' of Inl e \<Rightarrow> Inl e | Inr (lower, upper) \<Rightarrow>
     case filter_color lower upper imgs of Inl e \<Rightarrow> Inl e | Inr masks \<Rightarrow>
     case py_get masks i of Inl e \<Rightarrow> Inl e | Inr m \<Rightarrow>
     case bitwise_and a a m of Inl e \<Rightarrow> Inl e | Inr w \<Rightarrow>
       cut_imgs_loop imgs is (img_white @ [w]))"

definition cut_imgs :: "pixel ndarray list \<Rightarrow> py_error + pixel ndarray list" where
  "cut_imgs imgs = cut_imgs_loop imgs [0, 1, 2, 3, 4] []"

section \<open>Resizing\<close>

text \<open>
  A Python list is a mutable object: the heap maps the reference of a list to its
  current elements, and \<open>imgs[index] = x\<close> updates the heap at the reference \<open>imgs\<close>.
\<close>

type_synonym ref = nat
type_synonym 'a heap = "ref \<Rightarrow> 'a list"

text \<open>
  \<open>cv2.resize(src, dsize=(width, height))\<close>, a library routine: it rejects an empty source
  and an empty size; otherwise it returns a fresh array of \<open>height\<close> rows and \<open>width\<close>
  columns. The interpolated content is the parameter \<open>interp\<close>.
\<close>

definition cv2_resize ::
  "(pixel ndarray \<Rightarrow> nat \<Rightarrow> nat \<Rightarrow> nat \<Rightarrow> nat \<Rightarrow> pixel)
    \<Rightarrow> pixel ndarray \<Rightarrow> nat \<times> nat \<Rightarrow> py_error + pixel ndarray" where
  "cv2_resize interp src dsize =
    (case dsize of (width, height) \<Rightarrow>
      if shape0 src = 0 \<or> shape1 src = 0 \<or> width = 0 \<or> height = 0 then Inl CvError
      else Inr \<lparr>shape0 = height, shape1 = width, pix = interp src width height\<rparr>)"

text \<open>
  \<open>_resize_imgs\<close>: \<open>for img in imgs\<close> reads the list element at the iterator's position
  as long as the position is inside the list; the body stores the resized image at
  \<open>imgs[index]\<close>, and \<open>index\<close> runs with the iterator. The width is
  \<open>int(img.shape[1] * image_height / img.shape[0])\<close>: a true division of non-negative
  integers (ZeroDivisionError for zero rows), truncated.
\<close>

function resize_imgs_loop ::
  "(pixel ndarray \<Rightarrow> nat \<Rightarrow> nat \<Rightarrow> nat \<Rightarrow> nat \<Rightarrow> pixel)
    \<Rightarrow> pixel ndarray heap \<Rightarrow> ref \<Rightarrow> nat \<Rightarrow> py_error + pixel ndarray heap" where
  "resize_imgs_loop interp h imgs index =
    (if index < length (h imgs) then
       (let img = h imgs ! index in
        if shape0 img = 0 then Inl ZeroDivisionError
        else
          (let width = (shape1 img * image_height) div shape0 img in
           case cv2_resize interp img (width, image_height) of
             Inl e \<Rightarrow> Inl e
           | Inr x \<Rightarrow> resize_imgs_loop interp (h(imgs := (h imgs)[index := x])) imgs (index + 1)))
     else Inr h)"
  by pat_completeness auto
termination
  by (relation "measure (\<lambda>(interp, h, imgs, index). length (h imgs) - index)") auto

declare resize_imgs_loop.simps [simp del]

text \<open>The function returns the list it was given: the same reference.\<close>

definition resize_imgs ::
  "(pixel ndarray \<Rightarrow> nat \<Rightarrow> nat \<Rightarrow> nat \<Rightarrow> nat \<Rightarrow> pixel)
    \<Rightarrow> pixel ndarray heap \<Rightarrow> ref \<Rightarrow> py_error + (pixel ndarray heap \<times> ref)" where
  "resize_imgs interp h imgs =
    (case resize_imgs_loop interp h imgs 0 of Inl e \<Rightarrow> Inl e | Inr h' \<Rightarrow> Inr (h', imgs))"

section \<open>Face colour maps\<close>

text \<open>
  A Python dict keeps its keys in insertion order, and \<open>_get_key\<close> depends on that order:
  a face colour map is a list of pairs with distinct keys. Border positions are the
  integers 0 (top), 1 (right), 2 (bottom) and 3 (left).
\<close>

type_synonym color_map = "(string \<times> nat) list"

text \<open>\<open>d[k] = v\<close>: an existing key keeps its place, a new key goes to the end.\<close>

fun dict_set :: "('k \<times> 'v) list \<Rightarrow> 'k \<Rightarrow> 'v \<Rightarrow> ('k \<times> 'v) list" where
  "dict_set [] k v = [(k, v)]"
| "dict_set ((k', v') # d) k v =
    (if k' = k then (k, v) # d else (k', v') # dict_set d k v)"

text \<open>\<open>_get_key\<close>: the list of the keys whose value is \<open>value\<close>, in dict order.\<close>

definition get_key :: "color_map \<Rightarrow> nat \<Rightarrow> string list" where
  "get_key dictionary v = map fst (filter (\<lambda>(l, x). x = v) dictionary)"

section \<open>Role division\<close>

text \<open>
  \<open>_type_division\<close>: the loop over \<open>dict_color_map\<close> with the running \<open>index\<close>, the list
  \<open>bottom_index\<close> and the variable \<open>top_index\<close>, which starts at 0.
\<close>

fun type_division_loop ::
  "color_map list \<Rightarrow> nat \<Rightarrow> nat list \<Rightarrow> nat \<Rightarrow> nat list \<times> nat" where
  "type_division_loop [] index bottom_index top_index = (bottom_index, top_index)"
| "type_division_loop (dict_color # rest) index bottom_index top_index =
    (if length dict_color = 4
     then type_division_loop rest (index + 1) bottom_index index
     else type_division_loop rest (index + 1) (bottom_index @ [index]) top_index)"

definition type_division :: "color_map list \<Rightarrow> nat list \<times> nat" where
  "type_division dict_color_map = type_division_loop dict_color_map 0 [] 0"

section \<open>Combining the faces\<close>

text \<open>
  \<open>np.concatenate((a, b), axis=1)\<close> puts \<open>b\<close> to the right of \<open>a\<close> and needs equal row
  counts; with \<open>axis=0\<close> it puts \<open>b\<close> below \<open>a\<close> and needs equal column counts.
\<close>

definition concatenate1 :: "'a ndarray \<Rightarrow> 'a ndarray \<Rightarrow> py_error + 'a ndarray" where
  "concatenate1 a b =
    (if shape0 a = shape0 b
     then Inr \<lparr>shape0 = shape0 a, shape1 = shape1 a + shape1 b,
               pix = (\<lambda>r c. if c < shape1 a then pix a r c else pix b r (c - shape1 a))\<rparr>
     else Inl ValueError)"

definition concatenate0 :: "'a ndarray \<Rightarrow> 'a ndarray \<Rightarrow> py_error + 'a ndarray" where
  "concatenate0 a b =
    (if shape1 a = shape1 b
     then Inr \<lparr>shape0 = shape0 a + shape0 b, shape1 = shape1 a,
               pix = (\<lambda>r c. if r < shape0 a then pix a r c else pix b (r - shape0 a) c)\<rparr>
     else Inl ValueError)"

text \<open>A bound of a Python slice on an axis of length \<open>n\<close>: negative bounds count from the end, and the result is clipped to the axis.\<close>

definition slice_index :: "nat \<Rightarrow> int \<Rightarrow> nat" where
  "slice_index n i =
    (if i < 0 then (if i + int n < 0 then 0 else nat (i + int n))
     else if int n < i then n else nat i)"

text \<open>
  \<open>result[r0:r1, c0:c1] = src\<close>: the clipped region must have the shape of \<open>src\<close>, where an
  axis of \<open>src\<close> of length one is broadcast; otherwise numpy raises ValueError.
\<close>

definition assign_slice ::
  "'a ndarray \<Rightarrow> int \<Rightarrow> int \<Rightarrow> int \<Rightarrow> int \<Rightarrow> 'a ndarray \<Rightarrow> py_error + 'a ndarray" where
  "assign_slice result r0 r1 c0 c1 src =
    (let rs = slice_index (shape0 result) r0; re = slice_index (shape0 result) r1;
         cs = slice_index (shape1 result) c0; ce = slice_index (shape1 result) c1;
         nr = re - rs; nc = ce - cs
     in if (shape0 src = nr \<or> shape0 src = 1) \<and> (shape1 src = nc \<or> shape1 src = 1)
        then Inr (result\<lparr>pix :=
               (\<lambda>r c. if rs \<le> r \<and> r < rs + nr \<and> cs \<le> c \<and> c < cs + nc
                       then pix src (if shape0 src = 1 then 0 else r - rs)
                                    (if shape1 src = 1 then 0 else c - cs)
                       else pix result r c)\<rparr>)
        else Inl ValueError)"

text \<open>
  The variables of the chaining loop of \<open>_combine_imgs\<close>. The field \<open>strip\<close> is not a
  variable of the code: it lists the face indices whose images make up \<open>left_img\<close>, in
  the order of the calls of \<open>np.concatenate\<close>, so that the order of the faces can be
  stated.
\<close>

record chain_state =
  left_img :: "pixel ndarray"
  connect_color :: "string list"
  length_top :: int
  strip :: "nat list"

text \<open>The body of the inner loop, for one value of \<open>k\<close> (lines 91 to 96).\<close>

definition chain_check ::
  "pixel ndarray list \<Rightarrow> color_map list \<Rightarrow> nat list \<Rightarrow> nat \<Rightarrow> nat \<Rightarrow> chain_state
    \<Rightarrow> py_error + chain_state" where
  "chain_check img_white dict_color_map bottom_index top_index k s =
    (let img_index = k + 1 in
     case py_get bottom_index img_index of Inl e \<Rightarrow> Inl e | Inr b \<Rightarrow>
     case py_get dict_color_map b of Inl e \<Rightarrow> Inl e | Inr d \<Rightarrow>
       if connect_color s = get_key d 3 then
         (case py_get img_white b of Inl e \<Rightarrow> Inl e | Inr im \<Rightarrow>
          case concatenate1 (left_img s) im of Inl e \<Rightarrow> Inl e | Inr li \<Rightarrow>
          case py_get dict_color_map top_index of Inl e \<Rightarrow> Inl e | Inr dt \<Rightarrow>
            (let s1 = s\<lparr>left_img := li, connect_color := get_key d 1, strip := strip s @ [b]\<rparr>
             in if get_key d 0 = get_key dt 2
                then Inr (s1\<lparr>length_top := int (shape0 li) - int (shape0 im)\<rparr>)
                else Inr s1))
       else Inr s)"

text \<open>\<open>for k in range(3)\<close> and \<open>for i in range(3)\<close>, over the values still to come.\<close>

fun chain_inner ::
  "pixel ndarray list \<Rightarrow> color_map list \<Rightarrow> nat list \<Rightarrow> nat \<Rightarrow> nat list \<Rightarrow> chain_state
    \<Rightarrow> py_error + chain_state" where
  "chain_inner img_white dict_color_map bottom_index top_index [] s = Inr s"
| "chain_inner img_white dict_color_map bottom_index top_index (k # ks) s =
    (case chain_check img_white dict_color_map bottom_index top_index k s of
       Inl e \<Rightarrow> Inl e
     | Inr s' \<Rightarrow> chain_inner img_white dict_color_map bottom_index top_index ks s')"

fun chain_outer ::
  "pixel ndarray list \<Rightarrow> color_map list \<Rightarrow> nat list \<Rightarrow> nat \<Rightarrow> nat list \<Rightarrow> chain_state
    \<Rightarrow> py_error + chain_state" where
  "chain_outer img_white dict_color_map bottom_index top_index [] s = Inr s"
| "chain_outer img_white dict_color_map bottom_index top_index (i # is) s =
    (case chain_inner img_white dict_color_map bottom_index top_index [0, 1, 2] s of
       Inl e \<Rightarrow> Inl e
     | Inr s' \<Rightarrow> chain_outer img_white dict_color_map bottom_index top_index is s')"

text \<open>Lines 86 to 96 of \<open>_combine_imgs\<close>: the seed and the nested iteration.\<close>

definition chain_resolve ::
  "pixel ndarray list \<Rightarrow> color_map list \<Rightarrow> nat list \<Rightarrow> nat \<Rightarrow> py_error + chain_state" where
  "chain_resolve img_white dict_color_map bottom_index top_index =
    (case py_get bottom_index 0 of Inl e \<Rightarrow> Inl e | Inr b0 \<Rightarrow>
     case py_get img_white b0 of Inl e \<Rightarrow> Inl e | Inr im0 \<Rightarrow>
     case py_get dict_color_map b0 of Inl e \<Rightarrow> Inl e | Inr d0 \<Rightarrow>
       chain_outer img_white dict_color_map bottom_index top_index [0, 1, 2]
         \<lparr>left_img = im0, connect_color = get_key d0 1, length_top = 0, strip = [b0]\<rparr>)"

text \<open>
  Lines 98 to 107: the black canvas of the shape of the strip, the canvas stacked on the
  strip, and the top image assigned to rows \<open>length_top : width_top\<close> and columns
  \<open>image_height : height_top\<close> of the result.
\<close>

definition paste_top ::
  "pixel ndarray list \<Rightarrow> nat \<Rightarrow> chain_state \<Rightarrow> py_error + pixel ndarray" where
  "paste_top img_white top_index s =
    (let canvas_top = \<lparr>shape0 = shape0 (left_img s), shape1 = shape1 (left_img s),
                        pix = (\<lambda>r c. (0, 0, 0))\<rparr>
     in case py_get img_white top_index of Inl e \<Rightarrow> Inl e | Inr top_img \<Rightarrow>
        (let width_top = int (shape0 top_img) + length_top s;
             height_top = int (shape1 top_img) + int image_height
         in case concatenate0 canvas_top (left_img s) of Inl e \<Rightarrow> Inl e | Inr result \<Rightarrow>
              assign_slice result (length_top s) width_top (int image_height) height_top top_img))"

definition combine_imgs ::
  "pixel ndarray list \<Rightarrow> color_map list \<Rightarrow> nat list \<Rightarrow> nat \<Rightarrow> py_error + pixel ndarray" where
  "combine_imgs img_white dict_color_map bottom_index top_index =
    (case chain_resolve img_white dict_color_map bottom_index top_index of
       Inl e \<Rightarrow> Inl e
     | Inr s \<Rightarrow> paste_top img_white top_index s)"

section \<open>Colour detection\<close>

text \<open>
  \<open>cv2.findContours\<close>, \<open>cv2.contourArea\<close> and \<open>cv2.moments\<close> are library routines. A
  contour is given by what the last two return for it; the values are floats, each of
  which is a rational number. \<open>findContours\<close> is a parameter of the model.
\<close>

record contour =
  contourArea :: rat
  m00 :: rat
  m10 :: rat
  m01 :: rat

text \<open>\<open>int(x)\<close> on a float truncates towards zero.\<close>

definition py_int :: "rat \<Rightarrow> int" where
  "py_int q = (if 0 \<le> q then \<lfloor>q\<rfloor> else \<lceil>q\<rceil>)"

text \<open>
  The \<open>if\<close>/\<open>elif\<close> chain of lines 133 to 142: the border position written into the
  map, or \<open>None\<close> for the \<open>else\<close> branch. Divisions are exact here; for an image below
  $2^{52} / 10$ pixels in width and height, the quotient of two integers and a
  threshold compare in floating point as they do exactly.
\<close>

definition border_position :: "rat \<Rightarrow> rat \<Rightarrow> nat option" where
  "border_position horizontal vertical =
    (if vertical < 0.2 \<and> horizontal < 0.7 \<and> horizontal > 0.3 then Some 0
     else if vertical > 0.8 \<and> horizontal < 0.7 \<and> horizontal > 0.3 then Some 2
     else if horizontal > 0.8 \<and> vertical < 0.7 \<and> vertical > 0.3 then Some 1
     else if horizontal < 0.2 \<and> vertical < 0.7 \<and> vertical > 0.3 then Some 3
     else None)"

text \<open>The list \<open>color_content\<close> and what has been printed.\<close>

record detect_state =
  color_content :: "color_map list"
  printed :: "string list"

text \<open>
  The body of \<open>for k in range(len(contours))\<close> (lines 124 to 142). The area is that of
  \<open>contours[k]\<close>; the moments are those of \<open>cnt = contours[0]\<close>.
\<close>

definition detect_contour ::
  "string \<Rightarrow> nat \<times> nat \<Rightarrow> contour list \<Rightarrow> nat \<Rightarrow> nat \<Rightarrow> detect_state
    \<Rightarrow> py_error + detect_state" where
  "detect_contour color shape contours index_mask k st =
    (case py_get contours k of Inl e \<Rightarrow> Inl e | Inr ck \<Rightarrow>
     if contourArea ck > 100 then
       (case py_get contours 0 of Inl e \<Rightarrow> Inl e | Inr cnt \<Rightarrow>
        if m00 cnt = 0 then Inl ZeroDivisionError
        else
          (let cx = py_int (m10 cnt / m00 cnt);
               cy = py_int (m01 cnt / m00 cnt)
           in if snd shape = 0 \<or> fst shape = 0 then Inl ZeroDivisionError
              else
                (let horizontal = of_int cx / of_nat (snd shape);
                     vertical = of_int cy / of_nat (fst shape)
                 in if color \<noteq> ''white'' then
                      (case border_position horizontal vertical of
                         Some p \<Rightarrow>
                           (case py_get (color_content st) index_mask of
                              Inl e \<Rightarrow> Inl e
                            | Inr d \<Rightarrow>
                                Inr (st\<lparr>color_content :=
                                       (color_content st)[index_mask := dict_set d color p]\<rparr>))
                       | None \<Rightarrow> Inr (st\<lparr>printed := printed st @ [''error'']\<rparr>))
                    else Inr st)))
     else Inr st)"

fun contour_loop ::
  "string \<Rightarrow> nat \<times> nat \<Rightarrow> contour list \<Rightarrow> nat \<Rightarrow> nat list \<Rightarrow> detect_state
    \<Rightarrow> py_error + detect_state" where
  "contour_loop color shape contours index_mask [] st = Inr st"
| "contour_loop color shape contours index_mask (k # ks) st =
    (case detect_contour color shape contours index_mask k st of
       Inl e \<Rightarrow> Inl e
     | Inr st' \<Rightarrow> contour_loop color shape contours index_mask ks st')"

text \<open>\<open>for mask in masks\<close>, with the running \<open>index_mask\<close>.\<close>

fun mask_loop ::
  "(8 word ndarray \<Rightarrow> contour list) \<Rightarrow> string \<Rightarrow> 8 word ndarray list \<Rightarrow> nat \<Rightarrow> detect_state
    \<Rightarrow> py_error + detect_state" where
  "mask_loop findContours color [] index_mask st = Inr st"
| "mask_loop findContours color (m # ms) index_mask st =
    (let shape = (shape0 m, shape1 m); contours = findContours m
     in case contour_loop color shape contours index_mask [0..<length contours] st of
          Inl e \<Rightarrow> Inl e
        | Inr st' \<Rightarrow> mask_loop findContours color ms (index_mask + 1) st')"

text \<open>\<open>for color in color_dict\<close>.\<close>

fun color_loop ::
  "(8 word ndarray \<Rightarrow> contour list) \<Rightarrow> pixel ndarray list \<Rightarrow> (string \<times> bound \<times> bound) list
    \<Rightarrow> detect_state \<Rightarrow> py_error + detect_state" where
  "color_loop findContours imgs [] st = Inr st"
| "color_loop findContours imgs ((color, lower, upper) # rest) st =
    (case filter_color lower upper imgs of
       Inl e \<Rightarrow> Inl e
     | Inr masks \<Rightarrow>
         (case mask_loop findContours color masks 0 st of
            Inl e \<Rightarrow> Inl e
          | Inr st' \<Rightarrow> color_loop findContours imgs rest st'))"

text \<open>\<open>_color_detect\<close>, with the printed lines kept, and its return value.\<close>

definition color_detect_run ::
  "(8 word ndarray \<Rightarrow> contour list) \<Rightarrow> pixel ndarray list \<Rightarrow> py_error + detect_state" where
  "color_detect_run findContours imgs =
    color_loop findContours imgs color_dict \<lparr>color_content = [[], [], [], [], []], printed = []\<rparr>"

definition color_detect ::
  "(8 word ndarray \<Rightarrow> contour list) \<Rightarrow> pixel ndarray list \<Rightarrow> py_error + color_map list" where
  "color_detect findContours imgs =
    (case color_detect_run findContours imgs of
       Inl e \<Rightarrow> Inl e
     | Inr st \<Rightarrow> Inr (color_content st))"

section \<open>Assembling the net\<close>

text \<open>
  The last two steps of \<open>cut_cube\<close>: \<open>_type_division\<close> on the colour maps, then
  \<open>_combine_imgs\<close> on its result.
\<close>

definition assemble :: "pixel ndarray list \<Rightarrow> color_map list \<Rightarrow> py_error + pixel ndarray" where
  "assemble img_white dict_color_map =
    (case type_division dict_color_map of
       (bottom_index, top_index) \<Rightarrow> combine_imgs img_white dict_color_map bottom_index top_index)"

text \<open>
  The same two steps up to the end of the chaining loop, giving the order of the side
  faces, the index of the top face and the offset \<open>length_top\<close>.
\<close>

definition resolve ::
  "pixel ndarray list \<Rightarrow> color_map list \<Rightarrow> py_error + (nat list \<times> nat \<times> int)" where
  "resolve img_white dict_color_map =
    (case type_division dict_color_map of
       (bottom_index, top_index) \<Rightarrow>
         (case chain_resolve img_white dict_color_map bottom_index top_index of
            Inl e \<Rightarrow> Inl e
          | Inr s \<Rightarrow> Inr (strip s, top_index, length_top s)))"

section \<open>Example inputs\<close>

text \<open>A face image of one colour, and five faces of 300 by 300 pixels.\<close>

definition face_img :: "nat \<Rightarrow> nat \<Rightarrow> 8 word \<Rightarrow> pixel ndarray" where
  "face_img rows cols hue =
    \<lparr>shape0 = rows, shape1 = cols, pix = (\<lambda>r c. (hue, 255, 255))\<rparr>"

definition ex_imgs :: "pixel ndarray list" where
  "ex_imgs = [face_img 300 300 10, face_img 300 300 20, face_img 300 300 30,
              face_img 300 300 40, face_img 300 300 50]"

text \<open>
  Colour maps of a cube whose side faces chain in input order; the third side face
  lies below the top face (its top colour is the bottom colour of the top face).
\<close>

definition ex_maps :: "color_map list" where
  "ex_maps = [[(''yellow'', 1), (''red'', 3)],
              [(''yellow'', 3), (''green'', 1)],
              [(''green'', 3), (''blue'', 1), (''orange'', 0)],
              [(''blue'', 3), (''red'', 1)],
              [(''purple'', 0), (''orange'', 2), (''pink'', 1), (''light_blue'', 3)]]"

text \<open>The shape of a result and one of its elements, with a failure passed on.\<close>

definition result_shape :: "py_error + 'a ndarray \<Rightarrow> py_error + (nat \<times> nat)" where
  "result_shape x = (case x of Inl e \<Rightarrow> Inl e | Inr r \<Rightarrow> Inr (shape0 r, shape1 r))"

definition result_pix :: "py_error + 'a ndarray \<Rightarrow> nat \<Rightarrow> nat \<Rightarrow> py_error + 'a" where
  "result_pix x r c = (case x of Inl e \<Rightarrow> Inl e | Inr a \<Rightarrow> Inr (pix a r c))"

text \<open>Five maps none of which has four entries, and five maps two of which have.\<close>

definition no_top_maps :: "color_map list" where
  "no_top_maps = take 4 ex_maps @ [[(''purple'', 0)]]"

definition two_top_maps :: "color_map list" where
  "two_top_maps = ex_maps[0 := ex_maps ! 4]"

text \<open>Maps whose chain breaks after the second side face: no left colour is green.\<close>

definition broken_maps :: "color_map list" where
  "broken_maps = [[(''yellow'', 1)],
                  [(''yellow'', 3), (''green'', 1)],
                  [(''blue'', 3)],
                  [(''purple'', 3)],
                  [(''purple'', 0), (''orange'', 2), (''pink'', 1), (''light_blue'', 3)]]"

definition broken_state :: chain_state where
  "broken_state = \<lparr>left_img = face_img 300 600 10, connect_color = [''green''],
                    length_top = 0, strip = [0, 1]\<rparr>"


text \<open>
  Contours of a mask of 300 by 300 pixels: a speck of area 4 with centroid (150, 30),
  a sticker of area 400 with centroid (150, 270), and a sticker of area 400 with
  centroid (60, 150), whose horizontal position is exactly 0.2.
\<close>

definition small_blob :: contour where
  "small_blob = \<lparr>contourArea = 4, m00 = 4, m10 = 600, m01 = 120\<rparr>"

definition big_blob :: contour where
  "big_blob = \<lparr>contourArea = 400, m00 = 400, m10 = 60000, m01 = 108000\<rparr>"

definition edge_blob :: contour where
  "edge_blob = \<lparr>contourArea = 400, m00 = 400, m10 = 24000, m01 = 60000\<rparr>"

definition empty_content :: detect_state where
  "empty_content = \<lparr>color_content = [[], [], [], [], []], printed = []\<rparr>"

text \<open>
  A heap with one list, at reference 0, of one image of 100 by 200 pixels; a
  nearest-neighbour interpolation; and the shapes of the images of a list after a call.
\<close>

definition ex_heap :: "pixel ndarray heap" where
  "ex_heap = (\<lambda>q. [])(0 := [face_img 100 200 10])"

definition ex_interp :: "pixel ndarray \<Rightarrow> nat \<Rightarrow> nat \<Rightarrow> nat \<Rightarrow> nat \<Rightarrow> pixel" where
  "ex_interp src width height r c =
     pix src (r * shape0 src div height) (c * shape1 src div width)"

definition heap_shapes ::
  "py_error + ('a ndarray heap \<times> ref) \<Rightarrow> ref \<Rightarrow> py_error + (ref \<times> (nat \<times> nat) list)" where
  "heap_shapes x q =
    (case x of Inl e \<Rightarrow> Inl e
     | Inr (h, r) \<Rightarrow> Inr (r, map (\<lambda>a. (shape0 a, shape1 a)) (h q)))"

section \<open>The invariant of the chaining loop\<close>


section \<open>Properties of colour filtering\<close>

lemma py_get_take: "k < n \<Longrightarrow> py_get (take n xs) k = py_get xs k"
  by (simp add: py_get_def)

lemma range5: "[0, 1, 2, 3, 4] = [0..<5]"
  by (simp add: upt_rec)

lemma filter_color_loop_ok:
  "\<forall>k \<in> set ks. k < length imgs \<Longrightarrow>
   filter_color_loop lower upper imgs ks masks =
     Inr (masks @ map (\<lambda>k. inRange (imgs ! k) lower upper) ks)"
  by (induction ks arbitrary: masks) (simp_all add: py_get_def)

lemma filter_color_loop_fail:
  "\<exists>k \<in> set ks. \<not> k < length imgs \<Longrightarrow>
   filter_color_loop lower upper imgs ks masks = Inl IndexError"
  by (induction ks arbitrary: masks) (auto simp: py_get_def)

lemma filter_color_ge5:
  "5 \<le> length imgs \<Longrightarrow>
   filter_color lower upper imgs =
     Inr (map (\<lambda>k. inRange (imgs ! k) lower upper) [0, 1, 2, 3, 4])"
  unfolding filter_color_def by (subst filter_color_loop_ok) auto

lemma filter_color_lt5:
  "length imgs < 5 \<Longrightarrow> filter_color lower upper imgs = Inl IndexError"
  unfolding filter_color_def by (rule filter_color_loop_fail) auto

lemma filter_color_take5:
  "5 \<le> length imgs \<Longrightarrow> filter_color lower upper (take 5 imgs) = filter_color lower upper imgs"
  by (simp add: filter_color_ge5)

text \<open>
  C7. For five photographs and any colour profile, \<open>_filter_color\<close> returns five masks,
  the \<open>k\<close>-th of the shape of the \<open>k\<close>-th photograph; an element of a mask is set (255)
  exactly when each of the three channels of the pixel lies within the inclusive bounds
  of the profile, and is 0 otherwise; when the upper hue bound is below the lower one,
  every mask is clear everywhere.
\<close>

theorem filter_color_masks:
  assumes "length imgs = 5"
  shows "\<exists>masks. filter_color (l0, l1, l2) (u0, u1, u2) imgs = Inr masks \<and> length masks = 5 \<and>
     (\<forall>k<5. shape0 (masks ! k) = shape0 (imgs ! k) \<and> shape1 (masks ! k) = shape1 (imgs ! k) \<and>
        (\<forall>r c. pix (masks ! k) r c =
           (case pix (imgs ! k) r c of (h, s, v) \<Rightarrow>
              if l0 \<le> uint h \<and> uint h \<le> u0 \<and> l1 \<le> uint s \<and> uint s \<le> u1
                 \<and> l2 \<le> uint v \<and> uint v \<le> u2
              then 255 else 0)) \<and>
        (u0 < l0 \<longrightarrow> (\<forall>r c. pix (masks ! k) r c = 0)))"
proof -
  let ?f = "\<lambda>k. inRange (imgs ! k) (l0, l1, l2) (u0, u1, u2)"
  let ?Q = "\<lambda>m k. shape0 m = shape0 (imgs ! k) \<and> shape1 m = shape1 (imgs ! k) \<and>
        (\<forall>r c. pix m r c =
           (case pix (imgs ! k) r c of (h, s, v) \<Rightarrow>
              if l0 \<le> uint h \<and> uint h \<le> u0 \<and> l1 \<le> uint s \<and> uint s \<le> u1
                 \<and> l2 \<le> uint v \<and> uint v \<le> u2
              then 255 else 0)) \<and>
        (u0 < l0 \<longrightarrow> (\<forall>r c. pix m r c = 0))"
  have eq: "filter_color (l0, l1, l2) (u0, u1, u2) imgs = Inr (map ?f [0..<5])"
    using assms by (simp only: filter_color_ge5 range5 order_refl)
  have each: "?Q (?f k) k" for k
    by (auto simp: inRange_def in_bounds_def split: prod.splits)
  have "\<forall>k<5. ?Q (map ?f [0..<5] ! k) k"
  proof (intro allI impI)
    fix k :: nat assume "k < 5"
    then have n: "map ?f [0..<5] ! k = ?f k" by (simp del: upt_Suc)
    show "?Q (map ?f [0..<5] ! k) k" unfolding n by (rule each)
  qed
  moreover have "length (map ?f [0..<5]) = 5" by simp
  ultimately show ?thesis using eq by blast
qed

theorem filter_color_masks_witness:
  "length ex_imgs = 5 \<and>
   (\<exists>masks. filter_color (15, 0, 0) (30, 255, 255) ex_imgs = Inr masks \<and> length masks = 5 \<and>
      pix (masks ! 0) 7 9 = 0 \<and> pix (masks ! 1) 7 9 = 255) \<and>
   (10 :: int) < 170 \<and>
   (\<exists>masks. filter_color (170, 0, 0) (10, 255, 255) ex_imgs = Inr masks \<and>
      pix (masks ! 0) 7 9 = 0 \<and> pix (masks ! 1) 7 9 = 0)"
proof -
  have h: "length ex_imgs = 5" by (simp add: ex_imgs_def)
  have p0: "pix (ex_imgs ! 0) 7 9 = (10, 255, 255)" and p1: "pix (ex_imgs ! Suc 0) 7 9 = (20, 255, 255)"
    by (simp_all add: ex_imgs_def face_img_def)
  have k: "(0::nat) < 5" "(1::nat) < 5" by simp_all
  let ?P = "\<lambda>(l0::int) (u0::int) (masks :: 8 word ndarray list) k.
      \<forall>r c. pix (masks ! k) r c =
           (case pix (ex_imgs ! k) r c of (h, s, v) \<Rightarrow>
              if l0 \<le> uint h \<and> uint h \<le> u0 \<and> 0 \<le> uint s \<and> uint s \<le> 255
                 \<and> 0 \<le> uint v \<and> uint v \<le> 255
              then 255 else 0)"
  obtain ms where "filter_color (15, 0, 0) (30, 255, 255) ex_imgs = Inr ms" "length ms = 5"
      "?P 15 30 ms 0" "?P 15 30 ms 1"
    using filter_color_masks [OF h, of 15 0 0 30 255 255] k by blast
  then have a: "\<exists>masks. filter_color (15, 0, 0) (30, 255, 255) ex_imgs = Inr masks \<and>
      length masks = 5 \<and> pix (masks ! 0) 7 9 = 0 \<and> pix (masks ! 1) 7 9 = 255"
    by (simp add: p0 p1)
  have lt: "(10 :: int) < 170" by simp
  obtain ns where "filter_color (170, 0, 0) (10, 255, 255) ex_imgs = Inr ns"
      "\<forall>r c. pix (ns ! 0) r c = 0" "\<forall>r c. pix (ns ! 1) r c = 0"
    using filter_color_masks [OF h, of 170 0 0 10 255 255] k lt by blast
  then have b: "\<exists>masks. filter_color (170, 0, 0) (10, 255, 255) ex_imgs = Inr masks \<and>
      pix (masks ! 0) 7 9 = 0 \<and> pix (masks ! 1) 7 9 = 0"
    by simp
  from h a b show ?thesis by simp
qed

section \<open>The five photographs\<close>

lemma cut_imgs_loop_take5:
  "5 \<le> length imgs \<Longrightarrow> \<forall>i \<in> set is. i < 5 \<Longrightarrow>
   cut_imgs_loop (take 5 imgs) is acc = cut_imgs_loop imgs is acc"
  by (induction "is" arbitrary: acc)
     (simp_all add: py_get_take filter_color_take5 split: sum.splits prod.splits)

lemma cut_imgs_lt5: "length imgs < 5 \<Longrightarrow> cut_imgs imgs = Inl IndexError"
  by (simp add: cut_imgs_def py_get_def filter_color_lt5 color_bounds_def color_dict_def)

lemma color_loop_take5:
  "5 \<le> length imgs \<Longrightarrow>
   color_loop fc (take 5 imgs) cs st = color_loop fc imgs cs st"
  by (induction fc imgs cs st rule: color_loop.induct)
     (simp_all add: filter_color_take5 split: sum.splits)

lemma color_detect_lt5: "length imgs < 5 \<Longrightarrow> color_detect fc imgs = Inl IndexError"
  by (simp add: color_detect_def color_detect_run_def color_dict_def filter_color_lt5)

text \<open>
  C10. Mask filtering, cropping and colour detection read positions 0 to 4 of their
  list of images whatever its length: with fewer than five images each of them fails
  with IndexError, and with five or more each of them returns what it returns on the
  first five images alone (mask filtering then returns exactly five masks).
\<close>

theorem five_images_hard_wired:
  "(length imgs < 5 \<longrightarrow>
      filter_color lower upper imgs = Inl IndexError \<and>
      cut_imgs imgs = Inl IndexError \<and>
      color_detect findContours imgs = Inl IndexError) \<and>
   (5 \<le> length imgs \<longrightarrow>
      filter_color lower upper imgs = filter_color lower upper (take 5 imgs) \<and>
      (\<exists>masks. filter_color lower upper imgs = Inr masks \<and> length masks = 5) \<and>
      cut_imgs imgs = cut_imgs (take 5 imgs) \<and>
      color_detect findContours imgs = color_detect findContours (take 5 imgs))"
proof (intro conjI impI)
  assume "length imgs < 5"
  then show "filter_color lower upper imgs = Inl IndexError"
    and "cut_imgs imgs = Inl IndexError"
    and "color_detect findContours imgs = Inl IndexError"
    by (simp_all add: filter_color_lt5 cut_imgs_lt5 color_detect_lt5)
next
  assume ge: "5 \<le> length imgs"
  then show "filter_color lower upper imgs = filter_color lower upper (take 5 imgs)"
    by (simp add: filter_color_take5)
  from ge show "\<exists>masks. filter_color lower upper imgs = Inr masks \<and> length masks = 5"
    by (simp add: filter_color_ge5)
  from ge show "cut_imgs imgs = cut_imgs (take 5 imgs)"
    unfolding cut_imgs_def by (subst cut_imgs_loop_take5) auto
  from ge show "color_detect findContours imgs = color_detect findContours (take 5 imgs)"
    by (simp add: color_detect_def color_detect_run_def color_loop_take5)
qed

theorem five_images_hard_wired_witness:
  "length (take 3 ex_imgs) < 5 \<and>
   filter_color (15, 0, 0) (30, 255, 255) (take 3 ex_imgs) = Inl IndexError \<and>
   cut_imgs (take 3 ex_imgs) = Inl IndexError \<and>
   color_detect (\<lambda>m. []) (take 3 ex_imgs) = Inl IndexError \<and>
   5 \<le> length (ex_imgs @ [face_img 2 2 0]) \<and>
   cut_imgs (ex_imgs @ [face_img 2 2 0]) = cut_imgs ex_imgs \<and>
   color_detect (\<lambda>m. []) (ex_imgs @ [face_img 2 2 0]) = color_detect (\<lambda>m. []) ex_imgs"
proof -
  have a: "length (take 3 ex_imgs) < 5" and b: "5 \<le> length (ex_imgs @ [face_img 2 2 0])"
    and c: "take 5 (ex_imgs @ [face_img 2 2 0]) = ex_imgs"
    by (simp_all add: ex_imgs_def)
  from five_images_hard_wired [of "take 3 ex_imgs" "(15, 0, 0)" "(30, 255, 255)" "\<lambda>m. []"]
       five_images_hard_wired [of "ex_imgs @ [face_img 2 2 0]" "(15, 0, 0)" "(30, 255, 255)" "\<lambda>m. []"]
       a b
  show ?thesis unfolding c by blast
qed

section \<open>Properties of role division\<close>

lemma type_division_loop_length:
  "length (fst (type_division_loop ds index bi ti)) =
     length bi + length (filter (\<lambda>d. length d \<noteq> 4) ds)"
  by (induction ds arbitrary: index bi ti) simp_all

lemma type_division_length:
  "length (fst (type_division dcm)) + length (filter (\<lambda>d. length d = 4) dcm) = length dcm"
proof -
  have "length (filter (\<lambda>d. length d = 4) dcm) + length (filter (\<lambda>d. length d \<noteq> 4) dcm) = length dcm"
    using sum_length_filter_compl [of "\<lambda>d. length d = 4" dcm] by (simp add: comp_def)
  then show ?thesis
    by (simp add: type_division_def type_division_loop_length)
qed

lemma list5: "length xs = 5 \<Longrightarrow> \<exists>a b c d e. xs = [a, b, c, d, e]"
  by (auto simp: length_Suc_conv eval_nat_numeral)

lemma chain_check_short:
  "length bottom_index \<le> k + 1 \<Longrightarrow>
   chain_check img_white dict_color_map bottom_index top_index k s = Inl IndexError"
  by (simp add: chain_check_def py_get_def)

lemma chain_inner_short:
  "\<exists>k \<in> set ks. length bottom_index \<le> k + 1 \<Longrightarrow>
   \<exists>e. chain_inner img_white dict_color_map bottom_index top_index ks s = Inl e"
proof (induction ks arbitrary: s)
  case Nil
  then show ?case by simp
next
  case (Cons k ks)
  show ?case
  proof (cases "chain_check img_white dict_color_map bottom_index top_index k s")
    case (Inl e)
    then show ?thesis by simp
  next
    case (Inr s')
    then have "\<not> length bottom_index \<le> k + 1"
      using chain_check_short [of bottom_index k img_white dict_color_map top_index s] by auto
    with Cons.prems have "\<exists>k \<in> set ks. length bottom_index \<le> k + 1" by auto
    from Cons.IH [OF this] Inr show ?thesis by simp
  qed
qed

lemma chain_resolve_short:
  assumes "length bottom_index \<le> 3"
  shows "\<exists>e. chain_resolve img_white dict_color_map bottom_index top_index = Inl e"
proof -
  have "\<exists>e. chain_inner img_white dict_color_map bottom_index top_index [0, 1, 2] s = Inl e" for s
    using assms by (intro chain_inner_short) auto
  then have "\<exists>e. chain_outer img_white dict_color_map bottom_index top_index [0, 1, 2] s = Inl e" for s
    by (metis chain_outer.simps(2) sum.case(1))
  then show ?thesis
    unfolding chain_resolve_def by (auto split: sum.splits)
qed


lemma all_less_5: "(\<forall>i<5. P i) \<longleftrightarrow> P 0 \<and> P 1 \<and> P 2 \<and> P 3 \<and> P (4::nat)"
proof -
  have "i < 5 \<longleftrightarrow> i = 0 \<or> i = 1 \<or> i = 2 \<or> i = 3 \<or> i = 4" for i :: nat by arith
  then show ?thesis by auto
qed

lemmas chain_eval =
  resolve_def assemble_def combine_imgs_def paste_top_def type_division_def chain_resolve_def
  chain_check_def py_get_def get_key_def concatenate1_def concatenate0_def assign_slice_def
  slice_index_def image_height_def face_img_def ex_imgs_def result_shape_def result_pix_def
  Let_def

text \<open>
  C3, as amended. For five face colour maps: when exactly one map has four entries,
  \<open>_type_division\<close> returns its index as the top face and the other four indices, in
  input order, as the side faces; when two or more maps have four entries, fewer than
  four side indices remain and \<open>_combine_imgs\<close> fails (no image is produced); when no
  map has four entries, \<open>_type_division\<close> raises nothing and returns all five indices
  as side faces with 0 as the top index.
\<close>

theorem role_division_five:
  assumes len: "length dict_color_map = 5"
  shows "(length (filter (\<lambda>d. length d = 4) dict_color_map) = 1 \<longrightarrow>
            (\<exists>t<5. length (dict_color_map ! t) = 4 \<and>
                    (\<forall>i<5. i \<noteq> t \<longrightarrow> length (dict_color_map ! i) \<noteq> 4) \<and>
                    type_division dict_color_map = (filter (\<lambda>i. i \<noteq> t) [0, 1, 2, 3, 4], t))) \<and>
         (2 \<le> length (filter (\<lambda>d. length d = 4) dict_color_map) \<longrightarrow>
            (\<exists>e. assemble img_white dict_color_map = Inl e)) \<and>
         (length (filter (\<lambda>d. length d = 4) dict_color_map) = 0 \<longrightarrow>
            type_division dict_color_map = ([0, 1, 2, 3, 4], 0))"
proof (intro conjI impI)
  from list5 [OF len] obtain a b c d e where eq: "dict_color_map = [a, b, c, d, e]" by blast
  {
    assume one: "length (filter (\<lambda>d. length d = 4) dict_color_map) = 1"
    let ?G = "\<lambda>t. t < 5 \<and> length (dict_color_map ! t) = 4 \<and>
                    (\<forall>i<5. i \<noteq> t \<longrightarrow> length (dict_color_map ! i) \<noteq> 4) \<and>
                    type_division dict_color_map = (filter (\<lambda>i. i \<noteq> t) [0, 1, 2, 3, 4], t)"
    from one consider
        (0) "length a = 4" "length b \<noteq> 4" "length c \<noteq> 4" "length d \<noteq> 4" "length e \<noteq> 4"
      | (1) "length a \<noteq> 4" "length b = 4" "length c \<noteq> 4" "length d \<noteq> 4" "length e \<noteq> 4"
      | (2) "length a \<noteq> 4" "length b \<noteq> 4" "length c = 4" "length d \<noteq> 4" "length e \<noteq> 4"
      | (3) "length a \<noteq> 4" "length b \<noteq> 4" "length c \<noteq> 4" "length d = 4" "length e \<noteq> 4"
      | (4) "length a \<noteq> 4" "length b \<noteq> 4" "length c \<noteq> 4" "length d \<noteq> 4" "length e = 4"
      unfolding eq by (auto split: if_splits)
    then have "\<exists>t. ?G t"
    proof cases
      case 0 then have "?G 0" by (simp add: eq type_division_def all_less_5) then show ?thesis ..
    next
      case 1 then have "?G 1" by (simp add: eq type_division_def all_less_5) then show ?thesis ..
    next
      case 2 then have "?G 2" by (simp add: eq type_division_def all_less_5) then show ?thesis ..
    next
      case 3 then have "?G 3" by (simp add: eq type_division_def all_less_5) then show ?thesis ..
    next
      case 4 then have "?G 4" by (simp add: eq type_division_def all_less_5) then show ?thesis ..
    qed
    then show "\<exists>t<5. length (dict_color_map ! t) = 4 \<and>
                    (\<forall>i<5. i \<noteq> t \<longrightarrow> length (dict_color_map ! i) \<noteq> 4) \<and>
                    type_division dict_color_map = (filter (\<lambda>i. i \<noteq> t) [0, 1, 2, 3, 4], t)"
      by blast
  }
  {
    assume two: "2 \<le> length (filter (\<lambda>d. length d = 4) dict_color_map)"
    with type_division_length [of dict_color_map] len
    have short: "length (fst (type_division dict_color_map)) \<le> 3" by simp
    obtain bi ti where td: "type_division dict_color_map = (bi, ti)" by (cases "type_division dict_color_map")
    with short have "length bi \<le> 3" by simp
    from chain_resolve_short [OF this, of img_white dict_color_map ti]
    obtain e where "chain_resolve img_white dict_color_map bi ti = Inl e" by blast
    with td show "\<exists>e. assemble img_white dict_color_map = Inl e"
      by (simp add: assemble_def combine_imgs_def)
  }
  {
    assume "length (filter (\<lambda>d. length d = 4) dict_color_map) = 0"
    then show "type_division dict_color_map = ([0, 1, 2, 3, 4], 0)"
      unfolding eq by (auto simp: type_division_def split: if_splits)
  }
qed

theorem role_division_five_witness:
  "length ex_maps = 5 \<and> length (filter (\<lambda>d. length d = 4) ex_maps) = 1 \<and>
   type_division ex_maps = ([0, 1, 2, 3], 4) \<and>
   length two_top_maps = 5 \<and> 2 \<le> length (filter (\<lambda>d. length d = 4) two_top_maps) \<and>
   (\<exists>e. assemble ex_imgs two_top_maps = Inl e) \<and>
   length no_top_maps = 5 \<and> length (filter (\<lambda>d. length d = 4) no_top_maps) = 0 \<and>
   type_division no_top_maps = ([0, 1, 2, 3, 4], 0)"
proof -
  have a: "length ex_maps = 5" "length (filter (\<lambda>d. length d = 4) ex_maps) = 1"
    by (simp_all add: ex_maps_def)
  have b: "length two_top_maps = 5" "2 \<le> length (filter (\<lambda>d. length d = 4) two_top_maps)"
    by (simp_all add: two_top_maps_def ex_maps_def)
  have c: "length no_top_maps = 5" "length (filter (\<lambda>d. length d = 4) no_top_maps) = 0"
    by (simp_all add: no_top_maps_def ex_maps_def)
  from role_division_five [OF a(1), of ex_imgs] a(2) obtain t where
    t: "t < 5" "length (ex_maps ! t) = 4"
    and td: "type_division ex_maps = (filter (\<lambda>i. i \<noteq> t) [0, 1, 2, 3, 4], t)"
    by blast
  from t(1) have "t = 0 \<or> t = 1 \<or> t = 2 \<or> t = 3 \<or> t = 4" by arith
  with t(2) have "t = 4" by (auto simp: ex_maps_def)
  with td have 1: "type_division ex_maps = ([0, 1, 2, 3], 4)" by simp
  from role_division_five [OF b(1), of ex_imgs] b(2)
  have 2: "\<exists>e. assemble ex_imgs two_top_maps = Inl e" by blast
  from role_division_five [OF c(1), of ex_imgs] c(2)
  have 3: "type_division no_top_maps = ([0, 1, 2, 3, 4], 0)" by blast
  from a b c 1 2 3 show ?thesis by blast
qed

theorem role_failure_counterexample:
  "length no_top_maps = 5 \<and> length (filter (\<lambda>d. length d = 4) no_top_maps) = 0 \<and>
   resolve ex_imgs no_top_maps = Inr ([0, 1, 2, 3], 0, 0) \<and>
   result_shape (assemble ex_imgs no_top_maps) = Inr (600, 1200)"
  by (simp add: chain_eval ex_maps_def no_top_maps_def)

section \<open>A broken chain\<close>


lemma chain_check_nomatch:
  "k + 1 < length bottom_index \<Longrightarrow> bottom_index ! (k + 1) < length dict_color_map \<Longrightarrow>
   connect_color s \<noteq> get_key (dict_color_map ! (bottom_index ! (k + 1))) 3 \<Longrightarrow>
   chain_check img_white dict_color_map bottom_index top_index k s = Inr s"
  by (simp add: chain_check_def py_get_def)

lemma chain_inner_nomatch:
  assumes "4 \<le> length bottom_index" "\<forall>j<4. bottom_index ! j < length dict_color_map"
    and "\<forall>k<3. connect_color s \<noteq> get_key (dict_color_map ! (bottom_index ! (k + 1))) 3"
  shows "\<forall>k \<in> set ks. k < 3 \<Longrightarrow>
         chain_inner img_white dict_color_map bottom_index top_index ks s = Inr s"
proof (induction ks)
  case Nil
  show ?case by simp
next
  case (Cons k ks)
  then have k: "k < 3" by simp
  with assms have "chain_check img_white dict_color_map bottom_index top_index k s = Inr s"
    by (intro chain_check_nomatch) auto
  with Cons show ?case by simp
qed

lemma chain_outer_nomatch:
  assumes "4 \<le> length bottom_index" "\<forall>j<4. bottom_index ! j < length dict_color_map"
    and "\<forall>k<3. connect_color s \<noteq> get_key (dict_color_map ! (bottom_index ! (k + 1))) 3"
  shows "chain_outer img_white dict_color_map bottom_index top_index passes s = Inr s"
proof (induction passes)
  case Nil
  show ?case by simp
next
  case (Cons i passes)
  have "chain_inner img_white dict_color_map bottom_index top_index [0, 1, 2] s = Inr s"
    using assms by (intro chain_inner_nomatch) auto
  with Cons show ?case by simp
qed

lemma paste_top_fits:
  assumes "length_top s = 0" "top_index < length img_white"
    and "shape0 (img_white ! top_index) \<le> 2 * shape0 (left_img s)"
    and "image_height + shape1 (img_white ! top_index) \<le> shape1 (left_img s)"
  shows "\<exists>r. paste_top img_white top_index s = Inr r \<and>
             shape0 r = 2 * shape0 (left_img s) \<and> shape1 r = shape1 (left_img s)"
proof -
  have "nat (int (shape1 (img_white ! top_index)) + int image_height) - image_height =
        shape1 (img_white ! top_index)"
    by (simp add: nat_add_distrib)
  with assms show ?thesis
    by (simp add: paste_top_def py_get_def concatenate0_def assign_slice_def slice_index_def Let_def)
qed


text \<open>
  C4, as amended. When no side face at positions 1 to 3 of the side list has a left
  colour equal to the current connector, the passes of the chaining loop append nothing
  and raise nothing: the loop ends in the state it started from. The strip built so
  far, with fewer than four side faces, is then stacked under the canvas and returned
  with the top image pasted, whenever the top image fits into the result.
\<close>

theorem chain_break_is_silent:
  assumes "4 \<le> length bottom_index" "\<forall>j<4. bottom_index ! j < length dict_color_map"
    and "\<forall>k<3. connect_color s \<noteq> get_key (dict_color_map ! (bottom_index ! (k + 1))) 3"
  shows "chain_outer img_white dict_color_map bottom_index top_index passes s = Inr s \<and>
         (length_top s = 0 \<and> top_index < length img_white \<and>
          shape0 (img_white ! top_index) \<le> 2 * shape0 (left_img s) \<and>
          image_height + shape1 (img_white ! top_index) \<le> shape1 (left_img s) \<longrightarrow>
            (\<exists>r. paste_top img_white top_index s = Inr r \<and>
                 shape0 r = 2 * shape0 (left_img s) \<and> shape1 r = shape1 (left_img s)))"
  using chain_outer_nomatch [OF assms] paste_top_fits by blast


theorem chain_break_is_silent_witness:
  "chain_outer ex_imgs broken_maps [0, 1, 2, 3] 4 [0, 1, 2] broken_state = Inr broken_state \<and>
   strip broken_state = [0, 1] \<and>
   (\<exists>r. paste_top ex_imgs 4 broken_state = Inr r \<and> shape0 r = 600 \<and> shape1 r = 600)"
proof -
  have all3: "(\<forall>k<3. P k) \<longleftrightarrow> P 0 \<and> P 1 \<and> P (2::nat)" for P
  proof -
    have "k < 3 \<longleftrightarrow> k = 0 \<or> k = 1 \<or> k = 2" for k :: nat by arith
    then show ?thesis by auto
  qed
  have all4: "(\<forall>j<4. P j) \<longleftrightarrow> P 0 \<and> P 1 \<and> P 2 \<and> P (3::nat)" for P
  proof -
    have "j < 4 \<longleftrightarrow> j = 0 \<or> j = 1 \<or> j = 2 \<or> j = 3" for j :: nat by arith
    then show ?thesis by auto
  qed
  have 1: "4 \<le> length [0, 1, 2, 3::nat]" by simp
  have 2: "\<forall>j<4. [0, 1, 2, 3] ! j < length broken_maps"
    by (simp add: all4 broken_maps_def)
  have 3: "\<forall>k<3. connect_color broken_state \<noteq> get_key (broken_maps ! ([0, 1, 2, 3] ! (k + 1))) 3"
    by (simp add: all3 broken_maps_def broken_state_def get_key_def)
  have 4: "length_top broken_state = 0 \<and> 4 < length ex_imgs \<and>
          shape0 (ex_imgs ! 4) \<le> 2 * shape0 (left_img broken_state) \<and>
          image_height + shape1 (ex_imgs ! 4) \<le> shape1 (left_img broken_state)"
    by (simp add: broken_state_def ex_imgs_def face_img_def image_height_def)
  have 5: "shape0 (left_img broken_state) = 300" "shape1 (left_img broken_state) = 600"
    "strip broken_state = [0, 1]"
    by (simp_all add: broken_state_def face_img_def)
  from chain_break_is_silent [OF 1 2 3, of ex_imgs 4 "[0, 1, 2]"] 4 5
  show ?thesis by auto
qed

theorem chain_break_counterexample:
  "resolve ex_imgs broken_maps = Inr ([0, 1], 4, 0) \<and>
   result_shape (assemble ex_imgs broken_maps) = Inr (600, 600)"
  by (simp add: chain_eval broken_maps_def)

section \<open>Determinism\<close>



section \<open>Resizing in place\<close>

lemma resize_imgs_loop_effect:
  "resize_imgs_loop interp h imgs index = Inr h' \<Longrightarrow>
   (\<forall>q. q \<noteq> imgs \<longrightarrow> h' q = h q) \<and>
   length (h' imgs) = length (h imgs) \<and>
   (\<forall>i<index. h' imgs ! i = h imgs ! i) \<and>
   (\<forall>i. index \<le> i \<and> i < length (h imgs) \<longrightarrow>
      shape0 (h imgs ! i) \<noteq> 0 \<and>
      cv2_resize interp (h imgs ! i)
        (shape1 (h imgs ! i) * image_height div shape0 (h imgs ! i), image_height) =
        Inr (h' imgs ! i))"
proof (induction interp h imgs index arbitrary: h' rule: resize_imgs_loop.induct)
  case (1 interp h imgs index)
  show ?case
  proof (cases "index < length (h imgs)")
    case False
    with "1.prems" show ?thesis
      by (simp add: resize_imgs_loop.simps [of interp h imgs index])
  next
    case True
    let ?img = "h imgs ! index"
    from True "1.prems" have nz: "shape0 ?img \<noteq> 0"
      by (auto simp: resize_imgs_loop.simps [of interp h imgs index] Let_def split: if_splits)
    let ?w = "shape1 ?img * image_height div shape0 ?img"
    from True nz "1.prems" obtain x where
      x: "cv2_resize interp ?img (?w, image_height) = Inr x"
      and rec: "resize_imgs_loop interp (h(imgs := (h imgs)[index := x])) imgs (index + 1) = Inr h'"
      by (auto simp: resize_imgs_loop.simps [of interp h imgs index] Let_def split: sum.splits)
    from "1.IH" [OF True refl nz refl x rec]
    have ih: "(\<forall>q. q \<noteq> imgs \<longrightarrow> h' q = (h(imgs := (h imgs)[index := x])) q)"
      "length (h' imgs) = length ((h(imgs := (h imgs)[index := x])) imgs)"
      "(\<forall>i<index + 1. h' imgs ! i = (h(imgs := (h imgs)[index := x])) imgs ! i)"
      "(\<forall>i. index + 1 \<le> i \<and> i < length ((h(imgs := (h imgs)[index := x])) imgs) \<longrightarrow>
          shape0 ((h(imgs := (h imgs)[index := x])) imgs ! i) \<noteq> 0 \<and>
          cv2_resize interp ((h(imgs := (h imgs)[index := x])) imgs ! i)
            (shape1 ((h(imgs := (h imgs)[index := x])) imgs ! i) * image_height
               div shape0 ((h(imgs := (h imgs)[index := x])) imgs ! i), image_height) =
            Inr (h' imgs ! i))"
      by blast+
    have a: "\<forall>q. q \<noteq> imgs \<longrightarrow> h' q = h q" using ih(1) by simp
    have b: "length (h' imgs) = length (h imgs)" using ih(2) by simp
    have c: "\<forall>i<index. h' imgs ! i = h imgs ! i" using ih(3) by simp
    have at: "h' imgs ! index = x" using ih(3) True by simp
    have d: "shape0 (h imgs ! i) \<noteq> 0 \<and>
      cv2_resize interp (h imgs ! i)
        (shape1 (h imgs ! i) * image_height div shape0 (h imgs ! i), image_height) =
        Inr (h' imgs ! i)" if "index \<le> i" "i < length (h imgs)" for i
    proof (cases "i = index")
      case True
      with nz x at show ?thesis by simp
    next
      case False
      with that have "index + 1 \<le> i" by simp
      with ih(4) that False show ?thesis by simp
    qed
    from a b c d show ?thesis by blast
  qed
qed


text \<open>
  C8, as amended. \<open>_resize_imgs\<close> returns the list it was given, and on return that list
  holds, at every position, the image \<open>cv2.resize\<close> made from the image that was there:
  the caller's list is overwritten in place. The length of the list and every other
  list of the heap are unchanged. (The remaining operations are functions of their
  arguments in this development, as they assign to no argument in the code.)
\<close>

theorem resize_imgs_in_place:
  assumes "resize_imgs interp h imgs = Inr (h', r)"
  shows "r = imgs \<and>
         length (h' imgs) = length (h imgs) \<and>
         (\<forall>i<length (h imgs).
            cv2_resize interp (h imgs ! i)
              (shape1 (h imgs ! i) * image_height div shape0 (h imgs ! i), image_height) =
              Inr (h' imgs ! i)) \<and>
         (\<forall>q. q \<noteq> imgs \<longrightarrow> h' q = h q)"
proof -
  from assms have l: "resize_imgs_loop interp h imgs 0 = Inr h'" and r: "r = imgs"
    by (auto simp: resize_imgs_def split: sum.splits)
  from resize_imgs_loop_effect [OF l] r show ?thesis by simp
qed


theorem resize_imgs_in_place_witness:
  "\<exists>h'. resize_imgs ex_interp ex_heap 0 = Inr (h', 0) \<and>
        length (h' 0) = length (ex_heap 0) \<and>
        cv2_resize ex_interp (ex_heap 0 ! 0) (600, 300) = Inr (h' 0 ! 0) \<and>
        h' 1 = ex_heap 1"
proof -
  let ?h = "ex_heap(0 := [\<lparr>shape0 = 300, shape1 = 600,
                           pix = ex_interp (face_img 100 200 10) 600 300\<rparr>])"
  have e: "resize_imgs ex_interp ex_heap 0 = Inr (?h, 0)"
    by (simp add: resize_imgs_def resize_imgs_loop.simps ex_heap_def face_img_def
        cv2_resize_def image_height_def)
  have w: "shape1 (ex_heap 0 ! 0) * image_height div shape0 (ex_heap 0 ! 0) = 600"
    "image_height = 300" "(0::nat) < length (ex_heap 0)" "(1::nat) \<noteq> 0"
    by (simp_all add: ex_heap_def face_img_def image_height_def)
  from resize_imgs_in_place [OF e] w
  have "length (?h 0) = length (ex_heap 0) \<and>
        cv2_resize ex_interp (ex_heap 0 ! 0) (600, 300) = Inr (?h 0 ! 0) \<and>
        ?h 1 = ex_heap 1"
    by (metis (no_types, lifting))
  with e show ?thesis by blast
qed

theorem resize_mutates_counterexample:
  "heap_shapes (Inr (ex_heap, 0)) 0 = Inr (0, [(100, 200)]) \<and>
   heap_shapes (resize_imgs ex_interp ex_heap 0) 0 = Inr (0, [(300, 600)])"
  by (simp add: heap_shapes_def resize_imgs_def resize_imgs_loop.simps ex_heap_def
      face_img_def cv2_resize_def image_height_def)

section \<open>Border classification\<close>

text \<open>
  C6. The border position is top exactly for \<open>v < 0.2\<close> and \<open>0.3 < h < 0.7\<close>, bottom
  exactly for \<open>v > 0.8\<close> and \<open>0.3 < h < 0.7\<close>, right exactly for \<open>h > 0.8\<close> and
  \<open>0.3 < v < 0.7\<close>, left exactly for \<open>h < 0.2\<close> and \<open>0.3 < v < 0.7\<close>, all inequalities
  strict; a centroid with a coordinate equal to 0.2, 0.3, 0.7 or 0.8 is in no zone. For
  a blob of a colour other than white whose centroid is in no zone, the loop body
  prints \<open>error\<close>, leaves \<open>color_content\<close> as it is and raises nothing.
\<close>

theorem border_zones_strict:
  "(border_position h v = Some 0 \<longleftrightarrow> v < 0.2 \<and> 0.3 < h \<and> h < 0.7) \<and>
   (border_position h v = Some 2 \<longleftrightarrow> v > 0.8 \<and> 0.3 < h \<and> h < 0.7) \<and>
   (border_position h v = Some 1 \<longleftrightarrow> h > 0.8 \<and> 0.3 < v \<and> v < 0.7) \<and>
   (border_position h v = Some 3 \<longleftrightarrow> h < 0.2 \<and> 0.3 < v \<and> v < 0.7) \<and>
   (h \<in> {0.2, 0.3, 0.7, 0.8} \<or> v \<in> {0.2, 0.3, 0.7, 0.8} \<longrightarrow> border_position h v = None) \<and>
   (k < length contours \<and> contourArea (contours ! k) > 100 \<and> m00 (contours ! 0) \<noteq> 0 \<and>
    fst shape \<noteq> 0 \<and> snd shape \<noteq> 0 \<and> color \<noteq> ''white'' \<and>
    border_position
      (of_int (py_int (m10 (contours ! 0) / m00 (contours ! 0))) / of_nat (snd shape))
      (of_int (py_int (m01 (contours ! 0) / m00 (contours ! 0))) / of_nat (fst shape)) = None
    \<longrightarrow> detect_contour color shape contours index_mask k st =
          Inr (st\<lparr>printed := printed st @ [''error'']\<rparr>))"
proof (intro conjI impI)
  show "border_position h v = Some 0 \<longleftrightarrow> v < 0.2 \<and> 0.3 < h \<and> h < 0.7"
    by (auto simp: border_position_def)
  show "border_position h v = Some 2 \<longleftrightarrow> v > 0.8 \<and> 0.3 < h \<and> h < 0.7"
    by (auto simp: border_position_def)
  show "border_position h v = Some 1 \<longleftrightarrow> h > 0.8 \<and> 0.3 < v \<and> v < 0.7"
    by (auto simp: border_position_def)
  show "border_position h v = Some 3 \<longleftrightarrow> h < 0.2 \<and> 0.3 < v \<and> v < 0.7"
    by (auto simp: border_position_def)
  show "border_position h v = None"
    if "h \<in> {0.2, 0.3, 0.7, 0.8} \<or> v \<in> {0.2, 0.3, 0.7, 0.8}"
    using that by (auto simp: border_position_def)
  show "detect_contour color shape contours index_mask k st =
          Inr (st\<lparr>printed := printed st @ [''error'']\<rparr>)"
    if pre: "k < length contours \<and> contourArea (contours ! k) > 100 \<and> m00 (contours ! 0) \<noteq> 0 \<and>
      fst shape \<noteq> 0 \<and> snd shape \<noteq> 0 \<and> color \<noteq> ''white'' \<and>
      border_position
        (of_int (py_int (m10 (contours ! 0) / m00 (contours ! 0))) / of_nat (snd shape))
        (of_int (py_int (m01 (contours ! 0) / m00 (contours ! 0))) / of_nat (fst shape)) = None"
  proof -
    from pre have "0 < length contours" by (cases contours) simp_all
    with pre show ?thesis
      by (simp add: detect_contour_def py_get_def Let_def)
  qed
qed

theorem border_zones_strict_witness:
  "border_position 0.5 0.1 = Some 0 \<and> border_position 0.5 0.9 = Some 2 \<and>
   border_position 0.9 0.5 = Some 1 \<and> border_position 0.1 0.5 = Some 3 \<and>
   border_position 0.2 0.5 = None \<and> border_position 0.5 0.8 = None \<and>
   detect_contour ''yellow'' (300, 300) [edge_blob] 0 0 empty_content =
     Inr (empty_content\<lparr>printed := [''error'']\<rparr>)"
proof -
  have h: "of_int (py_int (m10 ([edge_blob] ! 0) / m00 ([edge_blob] ! 0))) / of_nat (snd (300::nat, 300::nat)) = (0.2 :: rat)"
    and v: "of_int (py_int (m01 ([edge_blob] ! 0) / m00 ([edge_blob] ! 0))) / of_nat (fst (300::nat, 300::nat)) = (0.5 :: rat)"
    by (simp_all add: edge_blob_def py_int_def)
  have pre: "(0::nat) < length [edge_blob]" "contourArea ([edge_blob] ! 0) > 100"
    "m00 ([edge_blob] ! 0) \<noteq> 0" "fst (300::nat, 300::nat) \<noteq> 0" "snd (300::nat, 300::nat) \<noteq> 0"
    "''yellow'' \<noteq> ''white''" "printed empty_content = []"
    by (simp_all add: edge_blob_def empty_content_def)
  have a: "border_position 0.2 0.5 = None"
    using border_zones_strict [of "0.2" "0.5"] by simp
  have b: "border_position 0.5 0.8 = None"
    using border_zones_strict [of "0.5" "0.8"] by simp
  have c: "border_position 0.5 0.1 = Some 0" "border_position 0.5 0.9 = Some 2"
    "border_position 0.9 0.5 = Some 1" "border_position 0.1 0.5 = Some 3"
    using border_zones_strict [of "0.5" "0.1"] border_zones_strict [of "0.5" "0.9"]
      border_zones_strict [of "0.9" "0.5"] border_zones_strict [of "0.1" "0.5"]
    by simp_all
  have d: "detect_contour ''yellow'' (300, 300) [edge_blob] 0 0 empty_content =
     Inr (empty_content\<lparr>printed := [''error'']\<rparr>)"
    using border_zones_strict [of "0.2" "0.5" 0 "[edge_blob]" "(300, 300)" "''yellow''" 0 empty_content]
      pre a unfolding h v by simp
  from a b c d show ?thesis by simp
qed

section \<open>The scan of the chaining loop\<close>








lemma chain_resolve_start:
  assumes "chain_resolve img_white dcm bi top_index = Inr s"
  shows "0 < length bi \<and>
         chain_outer img_white dcm bi top_index [0, 1, 2]
           \<lparr>left_img = img_white ! (bi ! 0), connect_color = get_key (dcm ! (bi ! 0)) 1,
            length_top = 0, strip = [bi ! 0]\<rparr> = Inr s"
  using assms by (auto simp: chain_resolve_def py_get_def split: if_splits)







text \<open>
  The field \<open>strip\<close> mirrors \<open>left_img\<close>: the width of the strip image is the sum of the
  widths of the faces listed, and its height is that of the seed.
\<close>

lemma chain_check_strip_width:
  assumes "shape1 (left_img s) = sum_list (map (\<lambda>b. shape1 (img_white ! b)) (strip s))"
    and "chain_check img_white dcm bi top_index k s = Inr s'"
  shows "shape1 (left_img s') = sum_list (map (\<lambda>b. shape1 (img_white ! b)) (strip s'))"
  using assms
  by (auto simp: chain_check_def py_get_def concatenate1_def Let_def
      split: if_splits sum.splits)

lemma chain_inner_strip_width:
  "shape1 (left_img s) = sum_list (map (\<lambda>b. shape1 (img_white ! b)) (strip s)) \<Longrightarrow>
   chain_inner img_white dcm bi top_index ks s = Inr s' \<Longrightarrow>
   shape1 (left_img s') = sum_list (map (\<lambda>b. shape1 (img_white ! b)) (strip s'))"
proof (induction ks arbitrary: s)
  case Nil
  then show ?case by simp
next
  case (Cons k ks)
  from Cons.prems(2) obtain s1 where
    c: "chain_check img_white dcm bi top_index k s = Inr s1"
    and r: "chain_inner img_white dcm bi top_index ks s1 = Inr s'"
    by (auto split: sum.splits)
  from chain_check_strip_width [OF Cons.prems(1) c] Cons.IH r show ?case by blast
qed

lemma chain_outer_strip_width:
  "shape1 (left_img s) = sum_list (map (\<lambda>b. shape1 (img_white ! b)) (strip s)) \<Longrightarrow>
   chain_outer img_white dcm bi top_index passes s = Inr s' \<Longrightarrow>
   shape1 (left_img s') = sum_list (map (\<lambda>b. shape1 (img_white ! b)) (strip s'))"
proof (induction passes arbitrary: s)
  case Nil
  then show ?case by simp
next
  case (Cons i passes)
  from Cons.prems(2) obtain s1 where
    c: "chain_inner img_white dcm bi top_index [0, 1, 2] s = Inr s1"
    and r: "chain_outer img_white dcm bi top_index passes s1 = Inr s'"
    by (auto split: sum.splits)
  from chain_inner_strip_width [OF Cons.prems(1) c] Cons.IH r show ?case by blast
qed

lemma strip_mirrors_left_img:
  assumes "chain_resolve img_white dcm bi top_index = Inr s"
  shows "shape1 (left_img s) = sum_list (map (\<lambda>b. shape1 (img_white ! b)) (strip s))"
proof -
  from chain_resolve_start [OF assms]
  have "chain_outer img_white dcm bi top_index [0, 1, 2]
           \<lparr>left_img = img_white ! (bi ! 0), connect_color = get_key (dcm ! (bi ! 0)) 1,
            length_top = 0, strip = [bi ! 0]\<rparr> = Inr s" by blast
  from chain_outer_strip_width [OF _ this] show ?thesis by simp
qed




section \<open>The placement offset\<close>

lemma chain_check_length_top:
  assumes "length_top s = 0"
    and "chain_check img_white dict_color_map bottom_index top_index k s = Inr s'"
  shows "length_top s' = 0"
  using assms
  by (auto simp: chain_check_def py_get_def concatenate1_def Let_def
      split: if_splits sum.splits)

lemma chain_inner_length_top:
  "length_top s = 0 \<Longrightarrow>
   chain_inner img_white dict_color_map bottom_index top_index ks s = Inr s' \<Longrightarrow>
   length_top s' = 0"
proof (induction ks arbitrary: s)
  case Nil
  then show ?case by simp
next
  case (Cons k ks)
  from Cons.prems(2) obtain s1 where
    c: "chain_check img_white dict_color_map bottom_index top_index k s = Inr s1"
    and r: "chain_inner img_white dict_color_map bottom_index top_index ks s1 = Inr s'"
    by (auto split: sum.splits)
  from chain_check_length_top [OF Cons.prems(1) c] Cons.IH r show ?case by blast
qed

lemma chain_outer_length_top:
  "length_top s = 0 \<Longrightarrow>
   chain_outer img_white dict_color_map bottom_index top_index passes s = Inr s' \<Longrightarrow>
   length_top s' = 0"
proof (induction passes arbitrary: s)
  case Nil
  then show ?case by simp
next
  case (Cons i passes)
  from Cons.prems(2) obtain s1 where
    c: "chain_inner img_white dict_color_map bottom_index top_index [0, 1, 2] s = Inr s1"
    and r: "chain_outer img_white dict_color_map bottom_index top_index passes s1 = Inr s'"
    by (auto split: sum.splits)
  from chain_inner_length_top [OF Cons.prems(1) c] Cons.IH r show ?case by blast
qed

text \<open>
  The offset \<open>length_top\<close> is a difference of row counts, and the images concatenated
  side by side have equal row counts: whenever the chaining loop ends, the offset is 0.
\<close>

lemma length_top_always_zero:
  assumes "chain_resolve img_white dict_color_map bottom_index top_index = Inr s"
  shows "length_top s = 0"
proof -
  from chain_resolve_start [OF assms]
  have "chain_outer img_white dict_color_map bottom_index top_index [0, 1, 2]
           \<lparr>left_img = img_white ! (bottom_index ! 0),
            connect_color = get_key (dict_color_map ! (bottom_index ! 0)) 1,
            length_top = 0, strip = [bottom_index ! 0]\<rparr> = Inr s" by blast
  from chain_outer_length_top [OF _ this] show ?thesis by simp
qed

text \<open>
  C1, at a failing input. The five faces are 300 by 300 pixels and chain in input
  order; the third side face lies below the top face, so that 600 pixels of side faces
  precede it. The code records the offset 0, and pastes the top image into rows 0 to
  299 and columns 300 to 599 of the result: the element at row 0, column 300 is of the
  top image, and the element at row 0, column 600 is still black.
\<close>

theorem offset_is_row_difference_example:
  "resolve ex_imgs ex_maps = Inr ([0, 1, 2, 3], 4, 0) \<and>
   get_key (ex_maps ! 2) 0 = get_key (ex_maps ! 4) 2 \<and>
   shape1 (ex_imgs ! 0) + shape1 (ex_imgs ! 1) = 600 \<and>
   result_shape (assemble ex_imgs ex_maps) = Inr (600, 1200) \<and>
   result_pix (assemble ex_imgs ex_maps) 0 300 = Inr (50, 255, 255) \<and>
   result_pix (assemble ex_imgs ex_maps) 0 599 = Inr (50, 255, 255) \<and>
   result_pix (assemble ex_imgs ex_maps) 0 600 = Inr (0, 0, 0)"
  by (simp add: chain_eval ex_maps_def)

section \<open>The centroid of a blob\<close>

text \<open>
  C2, at a failing input. The contours of a yellow mask of 300 by 300 pixels are a speck
  of area 4 near the top border and a sticker of area 400 near the bottom border. The
  speck is below the area threshold, the sticker above it; the centroid of the sticker
  is in the bottom zone; the code classifies the sticker from the moments of the first
  contour, the speck, and records yellow at the top.
\<close>

theorem first_contour_centroid_example:
  "contour_loop ''yellow'' (300, 300) [small_blob, big_blob] 0 [0, 1] empty_content =
     Inr (empty_content\<lparr>color_content := [[(''yellow'', 0)], [], [], [], []]\<rparr>) \<and>
   \<not> contourArea small_blob > 100 \<and> contourArea big_blob > 100 \<and>
   border_position (of_int (py_int (m10 big_blob / m00 big_blob)) / 300)
                   (of_int (py_int (m01 big_blob / m00 big_blob)) / 300) = Some 2 \<and>
   border_position (of_int (py_int (m10 small_blob / m00 small_blob)) / 300)
                   (of_int (py_int (m01 small_blob / m00 small_blob)) / 300) = Some 0"
  by (simp add: detect_contour_def py_get_def small_blob_def big_blob_def empty_content_def
      border_position_def py_int_def Let_def)


end
